theory Spec2Isabelle
  imports Main
begin

section \<open>The peer diagnostics layer of the debug console\<close>

text \<open>
  A shallow embedding of the \<^verbatim>\<open>DebugConsole\<close> object: the transaction counter and
  registry, the dispatcher \<^verbatim>\<open>Listener.handlePeerMessage\<close> and the two diagnostic
  entry points of \<^verbatim>\<open>Client\<close>. The global object is a record that every operation takes
  and returns; a raised \<^verbatim>\<open>TypeError\<close> is the left summand of the result.
\<close>

subsection \<open>Values\<close>

text \<open>
  A Number is either an integer or any other Number (a fraction, NaN, an infinity), the
  latter named by its spelling as a property key. Values are the JSON-like values a peer
  message can carry; an object is its list of own properties.
\<close>

type_synonym peerId = string

datatype jsnum = Integer int | NonInteger string

datatype jsval =
    JUndefined
  | JNull
  | JBool bool
  | JNum jsnum
  | JStr string
  | JArr "jsval list"
  | JObj "(string \<times> jsval) list"

datatype error = TypeError

text \<open>
  Reading one of the properties \<^verbatim>\<open>opcode\<close>, \<^verbatim>\<open>id\<close>, \<^verbatim>\<open>data\<close> of a value: a
  \<^verbatim>\<open>TypeError\<close> on \<^verbatim>\<open>undefined\<close> and \<^verbatim>\<open>null\<close>, the own property of an object,
  and \<^verbatim>\<open>undefined\<close> on every other value (no primitive and no array has a property of
  one of these three names).
\<close>

fun getprop :: "jsval \<Rightarrow> string \<Rightarrow> error + jsval" where
  "getprop JUndefined k = Inl TypeError"
| "getprop JNull k = Inl TypeError"
| "getprop (JObj kvs) k = Inr (case map_of kvs k of None \<Rightarrow> JUndefined | Some v \<Rightarrow> v)"
| "getprop (JBool b) k = Inr JUndefined"
| "getprop (JNum n) k = Inr JUndefined"
| "getprop (JStr s) k = Inr JUndefined"
| "getprop (JArr xs) k = Inr JUndefined"

text \<open>\<^verbatim>\<open>typeof v === 'string'\<close> and \<^verbatim>\<open>typeof v === 'number'\<close>.\<close>

fun is_string :: "jsval \<Rightarrow> bool" where
  "is_string (JStr s) = True"
| "is_string v = False"

fun is_number :: "jsval \<Rightarrow> bool" where
  "is_number (JNum n) = True"
| "is_number v = False"

text \<open>\<^verbatim>\<open>obj[k] = v\<close> on an object's property list: overwrite in place, or add at the end.\<close>

fun setprop :: "(string \<times> jsval) list \<Rightarrow> string \<Rightarrow> jsval \<Rightarrow> (string \<times> jsval) list" where
  "setprop [] k v = [(k, v)]"
| "setprop ((k', v') # kvs) k v = (if k' = k then (k, v) # kvs else (k', v') # setprop kvs k v)"

subsection \<open>State\<close>

text \<open>
  A completion callback is a function of the console's user, known by a handle, or the
  closure \<^verbatim>\<open>appendDataFn\<close> of one call of \<^verbatim>\<open>getP2PDiagnostics\<close>, known by the address
  of its environment (\<^verbatim>\<open>roomSize\<close>, \<^verbatim>\<open>results\<close>, \<^verbatim>\<open>completionFn\<close>). User functions
  are opaque: calling one is recorded and returns normally.
\<close>

datatype callback = UserFn nat | AppendDataFn nat

record closure =
  roomSize :: nat
  results :: "jsval list"
  completionFn :: nat

text \<open>The VTC client: \<^verbatim>\<open>getId()\<close> and \<^verbatim>\<open>getConnectStatus(peerId)\<close>.\<close>

record client =
  getId :: peerId
  getConnectStatus :: "peerId \<Rightarrow> string"

text \<open>
  The object given to \<^verbatim>\<open>setVtcObject\<close>. Of \<^verbatim>\<open>roomList\<close> (peer id to view port) only
  the keys are ever read, so the field is the list \<^verbatim>\<open>Object.keys\<close> returns.
\<close>

record vtcobj =
  roomList :: "peerId list"
  client :: client

text \<open>A message handed to \<^verbatim>\<open>sendPeerMessage\<close>: destination, message type, content.\<close>

record peer_message =
  rtcId :: peerId
  msgType :: string
  msgData :: jsval

text \<open>Who called a callback: the dispatcher, or the closure at an address.\<close>

datatype caller = Dispatcher | Closure nat

record invocation =
  invoker :: caller
  callee :: callback
  arg :: jsval

text \<open>The lines given to \<^verbatim>\<open>ErrorMetric.log\<close>, by the data they are built from.\<close>

datatype logline =
    RequestHandled peerId
  | InvalidId jsnum
  | UnsupportedOpcode string
  | WrongOpcodeType jsval

text \<open>
  The \<^verbatim>\<open>DebugConsole\<close> object (\<^verbatim>\<open>_txid\<close>, \<^verbatim>\<open>_transactionMap\<close>, \<^verbatim>\<open>_vtcObj\<close>), the
  environments of the closures created so far, and what the code has done to the outside:
  messages sent, callbacks called, lines logged, usage texts printed to the console.
\<close>

record state =
  txid :: int
  transactionMap :: "jsnum \<rightharpoonup> callback"
  vtcObj :: "vtcobj option"
  closures :: "closure list"
  sent :: "peer_message list"
  calls :: "invocation list"
  errlog :: "logline list"
  console :: "string list"

definition DebugConsole :: state where
  "DebugConsole = \<lparr>txid = 0, transactionMap = Map.empty, vtcObj = None, closures = [],
     sent = [], calls = [], errlog = [], console = []\<rparr>"

subsection \<open>Transaction registry\<close>

text \<open>
  \<^verbatim>\<open>this._txid++\<close> on a Number: integers are exact up to \<open>2 ^ 53\<close>, and
  \<open>2 ^ 53 + 1\<close> rounds back to \<open>2 ^ 53\<close>. The counter starts at 0 and nothing else
  writes it, so it stays between 0 and \<open>2 ^ 53\<close>.
\<close>

definition increment :: "int \<Rightarrow> int" where
  "increment n = (if n < 2 ^ 53 then n + 1 else n)"

definition getTxid :: "state \<Rightarrow> jsnum \<times> state" where
  "getTxid s = (Integer (txid s), s\<lparr>txid := increment (txid s)\<rparr>)"

definition registerTransaction :: "jsnum \<Rightarrow> callback \<Rightarrow> state \<Rightarrow> state" where
  "registerTransaction n f s = s\<lparr>transactionMap := (transactionMap s)(n \<mapsto> f)\<rparr>"

definition setVtcObject :: "vtcobj option \<Rightarrow> state \<Rightarrow> state" where
  "setVtcObject v s = s\<lparr>vtcObj := v\<rparr>"

definition getRoomUserList :: "state \<Rightarrow> error + peerId list" where
  "getRoomUserList s = (case vtcObj s of None \<Rightarrow> Inl TypeError | Some v \<Rightarrow> Inr (roomList v))"

subsection \<open>Effects on the outside\<close>

definition sendPeerMessage :: "peerId \<Rightarrow> string \<Rightarrow> jsval \<Rightarrow> state \<Rightarrow> state" where
  "sendPeerMessage dest ty m s = s\<lparr>sent := sent s @ [\<lparr>rtcId = dest, msgType = ty, msgData = m\<rparr>]\<rparr>"

definition ErrorMetric_log :: "logline \<Rightarrow> state \<Rightarrow> state" where
  "ErrorMetric_log l s = s\<lparr>errlog := errlog s @ [l]\<rparr>"

definition console_log :: "string \<Rightarrow> state \<Rightarrow> state" where
  "console_log l s = s\<lparr>console := console s @ [l]\<rparr>"

text \<open>
  Calling a callback. The closure \<^verbatim>\<open>appendDataFn\<close> pushes the reply on its
  \<^verbatim>\<open>results\<close> and calls \<^verbatim>\<open>completionFn(results)\<close> when the length equals
  \<^verbatim>\<open>roomSize\<close>. A closure value always has its environment; an address with none has no
  counterpart in the program and is left without effect.
\<close>

definition callUser :: "caller \<Rightarrow> nat \<Rightarrow> jsval \<Rightarrow> state \<Rightarrow> state" where
  "callUser who f x s = s\<lparr>calls := calls s @ [\<lparr>invoker = who, callee = UserFn f, arg = x\<rparr>]\<rparr>"

definition appendDataFn :: "nat \<Rightarrow> jsval \<Rightarrow> state \<Rightarrow> state" where
  "appendDataFn k x s =
     (if k < length (closures s) then
        let env = (closures s ! k)\<lparr>results := results (closures s ! k) @ [x]\<rparr>;
            s1 = s\<lparr>closures := (closures s)[k := env]\<rparr>
        in if length (results env) = roomSize env
           then callUser (Closure k) (completionFn env) (JArr (results env)) s1
           else s1
      else s)"

fun invoke :: "callback \<Rightarrow> jsval \<Rightarrow> state \<Rightarrow> state" where
  "invoke (UserFn f) x s = callUser Dispatcher f x s"
| "invoke (AppendDataFn k) x s =
     appendDataFn k x (s\<lparr>calls := calls s @ [\<lparr>invoker = Dispatcher, callee = AppendDataFn k, arg = x\<rparr>]\<rparr>)"

subsection \<open>Dispatcher\<close>

text \<open>The loop of the responder over \<^verbatim>\<open>roomList\<close>, filling \<^verbatim>\<open>roomConnectStatus.data\<close>.\<close>

fun statusLoop :: "client \<Rightarrow> peerId list \<Rightarrow> (string \<times> jsval) list \<Rightarrow> (string \<times> jsval) list" where
  "statusLoop c [] d = d"
| "statusLoop c (p # ps) d =
     statusLoop c ps (if p \<noteq> getId c then setprop d p (JStr (getConnectStatus c p)) else d)"

text \<open>
  \<^verbatim>\<open>handlePeerMessage(client, peerId, content)\<close>. The first read of a property of
  \<^verbatim>\<open>content\<close> raises when it is \<^verbatim>\<open>null\<close> or \<^verbatim>\<open>undefined\<close>; the probe branch
  raises when \<^verbatim>\<open>_vtcObj\<close> is \<^verbatim>\<open>null\<close>. The registry is keyed by the Number in
  \<^verbatim>\<open>content.id\<close>, and its callback is called before its entry is deleted. The two
  default cases stand under \<open>is_number cid\<close> and \<open>is_string opcode\<close> and are never taken.
\<close>

definition handlePeerMessage :: "client \<Rightarrow> peerId \<Rightarrow> jsval \<Rightarrow> state \<Rightarrow> error + state" where
  "handlePeerMessage c sender content s =
     (case getprop content ''opcode'' of
        Inl e \<Rightarrow> Inl e
      | Inr opcode \<Rightarrow>
          (case getprop content ''id'' of
             Inl e \<Rightarrow> Inl e
           | Inr cid \<Rightarrow>
               (case getprop content ''data'' of
                  Inl e \<Rightarrow> Inl e
                | Inr cdata \<Rightarrow>
                    if is_string opcode then
                      if opcode = JStr ''testP2PConnection'' \<and> is_number cid then
                        (case getRoomUserList s of
                           Inl e \<Rightarrow> Inl e
                         | Inr rl \<Rightarrow>
                             let roomConnectStatus =
                                   JObj [(''myPeerId'', JStr (getId c)),
                                         (''data'', JObj (statusLoop c rl []))];
                                 s1 = ErrorMetric_log (RequestHandled sender) s
                             in Inr (sendPeerMessage sender ''debug''
                                      (JObj [(''id'', cid), (''opcode'', JStr ''response''),
                                             (''data'', roomConnectStatus)]) s1))
                      else if opcode = JStr ''response'' \<and> cdata \<noteq> JUndefined \<and> is_number cid then
                        (case cid of
                           JNum n \<Rightarrow>
                             (case transactionMap s n of
                                Some transaction \<Rightarrow>
                                  let s1 = invoke transaction cdata s
                                  in Inr (s1\<lparr>transactionMap := (transactionMap s1)(n := None)\<rparr>)
                              | None \<Rightarrow> Inr (ErrorMetric_log (InvalidId n) s))
                         | _ \<Rightarrow> Inr s)
                      else
                        (case opcode of
                           JStr op \<Rightarrow> Inr (ErrorMetric_log (UnsupportedOpcode op) s)
                         | _ \<Rightarrow> Inr s)
                    else Inr (ErrorMetric_log (WrongOpcodeType content) s))))"

subsection \<open>Client\<close>

text \<open>
  The two entry points. An argument that may be \<^verbatim>\<open>undefined\<close> is an option; the usage
  text printed to the console is recorded by the name of the function. The callback of
  \<^verbatim>\<open>getP2PDiagnostics\<close> is a function of the user, that of
  \<^verbatim>\<open>getP2PDiagnosticForPeerId\<close> is one too, or the closure that \<^verbatim>\<open>getP2PDiagnostics\<close>
  passes.
\<close>

definition getP2PDiagnosticForPeerId ::
    "peerId option \<Rightarrow> callback option \<Rightarrow> state \<Rightarrow> error + (jsval \<times> state)" where
  "getP2PDiagnosticForPeerId p completion s =
     (case p of
        None \<Rightarrow> Inr (JBool False, console_log ''Client.getP2PDiagnosticForPeerId'' s)
      | Some pid \<Rightarrow>
          (case completion of
             None \<Rightarrow> Inr (JBool False, console_log ''Client.getP2PDiagnosticForPeerId'' s)
           | Some f \<Rightarrow>
               (case vtcObj s of
                  None \<Rightarrow> Inl TypeError
                | Some v \<Rightarrow>
                    let (n, s1) = getTxid s;
                        s2 = sendPeerMessage pid ''debug''
                               (JObj [(''opcode'', JStr ''testP2PConnection''), (''id'', JNum n)]) s1
                    in Inr (JUndefined, registerTransaction n f s2))))"

text \<open>The loop of \<^verbatim>\<open>getP2PDiagnostics\<close> over the filtered room list.\<close>

fun diagnosticsLoop :: "peerId list \<Rightarrow> callback \<Rightarrow> state \<Rightarrow> error + state" where
  "diagnosticsLoop [] f s = Inr s"
| "diagnosticsLoop (p # ps) f s =
     (case getP2PDiagnosticForPeerId (Some p) (Some f) s of
        Inl e \<Rightarrow> Inl e
      | Inr r \<Rightarrow> diagnosticsLoop ps f (snd r))"

definition getP2PDiagnostics :: "nat option \<Rightarrow> state \<Rightarrow> error + (jsval \<times> state)" where
  "getP2PDiagnostics completion s =
     (case completion of
        None \<Rightarrow> Inr (JBool False, console_log ''Client.getP2PDiagnostics'' s)
      | Some f \<Rightarrow>
          (case vtcObj s of
             None \<Rightarrow> Inl TypeError
           | Some v \<Rightarrow>
               let myId = getId (client v);
                   rl = filter (\<lambda>elem. elem \<noteq> myId) (roomList v);
                   k = length (closures s);
                   s1 = s\<lparr>closures := closures s @ [\<lparr>roomSize = length rl, results = [], completionFn = f\<rparr>]\<rparr>
               in (case diagnosticsLoop rl (AppendDataFn k) s1 of
                     Inl e \<Rightarrow> Inl e
                   | Inr s2 \<Rightarrow> Inr (JUndefined, s2))))"

text \<open>
  Inbound messages, one event after the other. An event whose handler raises leaves the
  state as it was: both raising paths of the handler raise before any write.
\<close>

definition deliver1 :: "client \<times> peerId \<times> jsval \<Rightarrow> state \<Rightarrow> state" where
  "deliver1 m s = (case handlePeerMessage (fst m) (fst (snd m)) (snd (snd m)) s of
                     Inl e \<Rightarrow> s | Inr s' \<Rightarrow> s')"

fun deliver :: "(client \<times> peerId \<times> jsval) list \<Rightarrow> state \<Rightarrow> state" where
  "deliver [] s = s"
| "deliver (m # ms) s = deliver ms (deliver1 m s)"

subsection \<open>Scenarios and shapes used by the properties\<close>

text \<open>\<open>n\<close> successive calls of \<^verbatim>\<open>_getTxid\<close>: the identifiers returned, and the state after.\<close>

fun allocate :: "nat \<Rightarrow> state \<Rightarrow> jsnum list \<times> state" where
  "allocate 0 s = ([], s)"
| "allocate (Suc n) s =
     (fst (getTxid s) # fst (allocate n (snd (getTxid s))), snd (allocate n (snd (getTxid s))))"

text \<open>
  The two envelope shapes the dispatcher recognises, read off its two conditions: a probe
  (\<^verbatim>\<open>opcode === 'testP2PConnection'\<close> and a Number \<^verbatim>\<open>id\<close>), and a response
  (\<^verbatim>\<open>opcode === 'response'\<close>, \<^verbatim>\<open>data !== undefined\<close> and a Number \<^verbatim>\<open>id\<close>) with
  its id and payload.
\<close>

definition is_probe :: "jsval \<Rightarrow> bool" where
  "is_probe m = (getprop m ''opcode'' = Inr (JStr ''testP2PConnection'')
                 \<and> (case getprop m ''id'' of Inr (JNum n) \<Rightarrow> True | _ \<Rightarrow> False))"

definition response_of :: "jsval \<Rightarrow> (jsnum \<times> jsval) option" where
  "response_of m =
     (if getprop m ''opcode'' = Inr (JStr ''response'') then
        (case (getprop m ''id'', getprop m ''data'') of
           (Inr (JNum n), Inr d) \<Rightarrow> if d = JUndefined then None else Some (n, d)
         | _ \<Rightarrow> None)
      else None)"

text \<open>The envelopes the code itself builds: the probe of \<^verbatim>\<open>getP2PDiagnosticForPeerId\<close>
  and the reply of the responder.\<close>

definition probe :: "int \<Rightarrow> jsval" where
  "probe n = JObj [(''opcode'', JStr ''testP2PConnection''), (''id'', JNum (Integer n))]"

definition response :: "int \<Rightarrow> jsval \<Rightarrow> jsval" where
  "response n d = JObj [(''id'', JNum (Integer n)), (''opcode'', JStr ''response''), (''data'', d)]"



text \<open>The calls made by the closure at address \<open>k\<close>, and the transactions waiting for it.\<close>

definition fired :: "nat \<Rightarrow> state \<Rightarrow> invocation list" where
  "fired k s = filter (\<lambda>i. invoker i = Closure k) (calls s)"


text \<open>
  A closure named by the registry or by the call trace has been created: its address is
  below the number of environments. This holds at the start and every operation keeps it.
\<close>

definition wellformed :: "state \<Rightarrow> bool" where
  "wellformed s =
     ((\<forall>n k. transactionMap s n = Some (AppendDataFn k) \<longrightarrow> k < length (closures s))
      \<and> (\<forall>i\<in>set (calls s). \<forall>k. invoker i = Closure k \<longrightarrow> k < length (closures s)))"

text \<open>The states the operations can produce from the initial object.\<close>

inductive reachable :: "state \<Rightarrow> bool" where
  initial: "reachable DebugConsole"
| vtc_set: "reachable s \<Longrightarrow> reachable (setVtcObject v s)"
| inbound: "reachable s \<Longrightarrow> handlePeerMessage c q m s = Inr s' \<Longrightarrow> reachable s'"
| for_peer: "reachable s \<Longrightarrow>
     getP2PDiagnosticForPeerId p (map_option UserFn f) s = Inr (r, s') \<Longrightarrow> reachable s'"
| for_room: "reachable s \<Longrightarrow> getP2PDiagnostics f s = Inr (r, s') \<Longrightarrow> reachable s'"


text \<open>A call of \<^verbatim>\<open>getP2PDiagnostics\<close> followed by inbound messages.\<close>

definition diagnose :: "nat \<Rightarrow> (client \<times> peerId \<times> jsval) list \<Rightarrow> state \<Rightarrow> error + state" where
  "diagnose f msgs s =
     (case getP2PDiagnostics (Some f) s of Inl e \<Rightarrow> Inl e | Inr r \<Rightarrow> Inr (deliver msgs (snd r)))"

text \<open>A room of three peers seen from peer A, and the replies of B and C.\<close>

definition clientA :: client where
  "clientA = \<lparr>getId = ''A'',
     getConnectStatus = (\<lambda>p. if p = ''C'' then ''not connected'' else ''is connected'')\<rparr>"

definition roomABC :: state where
  "roomABC = setVtcObject (Some \<lparr>roomList = [''A'', ''B'', ''C''], client = clientA\<rparr>) DebugConsole"

definition onlyA :: state where
  "onlyA = setVtcObject (Some \<lparr>roomList = [''A''], client = clientA\<rparr>) DebugConsole"

definition replyB :: jsval where
  "replyB = JObj [(''myPeerId'', JStr ''B''),
                  (''data'', JObj [(''A'', JStr ''is connected''), (''C'', JStr ''is connected'')])]"

definition replyC :: jsval where
  "replyC = JObj [(''myPeerId'', JStr ''C''),
                  (''data'', JObj [(''A'', JStr ''not connected''), (''B'', JStr ''is connected'')])]"

section \<open>Properties\<close>

subsection \<open>The transaction counter\<close>

lemma allocate_upto:
  "txid s \<le> 2 ^ 53 \<Longrightarrow> txid s + int n \<le> 2 ^ 53 + 1 \<Longrightarrow>
     allocate n s = (map (\<lambda>i. Integer (txid s + int i)) [0..<n],
                     s\<lparr>txid := min (txid s + int n) (2 ^ 53)\<rparr>)"
proof (induction n arbitrary: s)
  case 0
  then show ?case by simp
next
  case (Suc n)
  let ?s1 = "snd (getTxid s)"
  have m: "map (\<lambda>i. Integer (txid s + int i)) [0..<Suc n] =
             Integer (txid s) # map (\<lambda>i. Integer (txid s + 1 + int i)) [0..<n]"
    by (simp add: upt_rec[of 0 "Suc n"] map_Suc_upt[symmetric] del: upt_Suc)
  show ?case
  proof (cases "txid s < 2 ^ 53")
    case True
    have t1: "txid ?s1 = txid s + 1"
      using True by (simp add: getTxid_def increment_def)
    have "txid ?s1 \<le> 2 ^ 53" "txid ?s1 + int n \<le> 2 ^ 53 + 1"
      using Suc.prems t1 True by simp_all
    from Suc.IH[OF this]
    have ih: "allocate n ?s1 = (map (\<lambda>i. Integer (txid ?s1 + int i)) [0..<n],
                                ?s1\<lparr>txid := min (txid ?s1 + int n) (2 ^ 53)\<rparr>)" .
    show ?thesis
      unfolding allocate.simps ih m t1
      using True by (simp add: getTxid_def increment_def add.commute add.left_commute)
  next
    case False
    then have n0: "n = 0" and eq: "txid s = 2 ^ 53"
      using Suc.prems by simp_all
    show ?thesis
      unfolding n0 by (simp add: getTxid_def increment_def eq)
  qed
qed

lemma allocate_append:
  "allocate (m + n) s =
     (fst (allocate m s) @ fst (allocate n (snd (allocate m s))),
      snd (allocate n (snd (allocate m s))))"
  by (induction m arbitrary: s) simp_all

lemma allocate_2: "fst (allocate 2 s) = [fst (getTxid s), fst (getTxid (snd (getTxid s)))]"
  by (simp add: numeral_2_eq_2)

lemma length_allocate: "length (fst (allocate n s)) = n"
  by (induction n arbitrary: s) simp_all

text \<open>
  Claim C7, as the code has it. While the counter is within the exact integers of a Number,
  that is for a sequence of calls that starts at a counter \<open>t \<ge> 0\<close> and makes at most
  \<open>2 ^ 53 + 1 - t\<close> calls, every identifier returned is a non-negative integer strictly
  greater than every identifier returned before it, and the calls change nothing but the
  counter. \<^verbatim>\<open>_getTxid\<close> is a total function: it never fails.
\<close>

theorem getTxid_increasing_upto_limit:
  assumes "0 \<le> txid s" and "txid s \<le> 2 ^ 53" and "txid s + int n \<le> 2 ^ 53 + 1"
  shows "(\<forall>j<n. \<exists>b. fst (allocate n s) ! j = Integer b \<and> 0 \<le> b \<and>
             (\<forall>i<j. \<exists>a. fst (allocate n s) ! i = Integer a \<and> a < b))
         \<and> snd (allocate n s) = s\<lparr>txid := min (txid s + int n) (2 ^ 53)\<rparr>"
  using assms by (simp add: allocate_upto)

theorem getTxid_increasing_upto_limit_witness:
  "0 \<le> txid DebugConsole \<and> txid DebugConsole \<le> 2 ^ 53 \<and> txid DebugConsole + int 3 \<le> 2 ^ 53 + 1
   \<and> (\<exists>b. fst (allocate 3 DebugConsole) ! 2 = Integer b \<and> 0 \<le> b \<and>
          (\<exists>a. fst (allocate 3 DebugConsole) ! 1 = Integer a \<and> a < b))
   \<and> fst (allocate 3 DebugConsole) = [Integer 0, Integer 1, Integer 2]
   \<and> snd (allocate 3 DebugConsole) = DebugConsole\<lparr>txid := 3\<rparr>"
proof -
  have a: "0 \<le> txid DebugConsole"
    by (simp add: DebugConsole_def)
  have b: "txid DebugConsole \<le> 2 ^ 53" "txid DebugConsole + int 3 \<le> 2 ^ 53 + 1"
    by (simp_all add: DebugConsole_def)
  have c: "fst (allocate 3 DebugConsole) = [Integer 0, Integer 1, Integer 2]"
    by (simp add: numeral_3_eq_3 getTxid_def increment_def DebugConsole_def)
  have d: "min (txid DebugConsole + int 3) (2 ^ 53) = 3"
    by (simp add: DebugConsole_def)
  from getTxid_increasing_upto_limit[OF a b]
  have all: "\<forall>j<3. \<exists>b. fst (allocate 3 DebugConsole) ! j = Integer b \<and> 0 \<le> b \<and>
             (\<forall>i<j. \<exists>a. fst (allocate 3 DebugConsole) ! i = Integer a \<and> a < b)"
    and st: "snd (allocate 3 DebugConsole) = DebugConsole\<lparr>txid := min (txid DebugConsole + int 3) (2 ^ 53)\<rparr>"
    by blast+
  from all have "\<exists>b. fst (allocate 3 DebugConsole) ! 2 = Integer b \<and> 0 \<le> b \<and>
             (\<forall>i<2. \<exists>a. fst (allocate 3 DebugConsole) ! i = Integer a \<and> a < b)"
    by simp
  then have e: "\<exists>b. fst (allocate 3 DebugConsole) ! 2 = Integer b \<and> 0 \<le> b \<and>
          (\<exists>a. fst (allocate 3 DebugConsole) ! 1 = Integer a \<and> a < b)"
    by (metis one_less_numeral_iff semiring_norm(76))
  show ?thesis
    using a b c e st unfolding d by blast
qed

text \<open>
  Claim C7 as stated fails for longer sequences: of \<open>2 ^ 53 + 2\<close> calls from the start of
  the process, the last two return the same identifier \<open>2 ^ 53\<close>.
\<close>

theorem getTxid_repeats_counterexample:
  "fst (allocate (2 ^ 53 + 2) DebugConsole) ! (2 ^ 53) = Integer (2 ^ 53) \<and>
   fst (allocate (2 ^ 53 + 2) DebugConsole) ! (2 ^ 53 + 1) = Integer (2 ^ 53)"
proof -
  let ?s = "snd (allocate (2 ^ 53) DebugConsole)"
  have "txid DebugConsole \<le> 2 ^ 53" "txid DebugConsole + int (2 ^ 53) \<le> 2 ^ 53 + 1"
    by (simp_all add: DebugConsole_def)
  from allocate_upto[OF this] have t: "txid ?s = 2 ^ 53"
    by (simp add: DebugConsole_def)
  have "fst (allocate 2 ?s) = [fst (getTxid ?s), fst (getTxid (snd (getTxid ?s)))]"
    by (rule allocate_2)
  with t have two: "fst (allocate 2 ?s) = [Integer (2 ^ 53), Integer (2 ^ 53)]"
    by (simp add: getTxid_def increment_def)
  have len: "length (fst (allocate (2 ^ 53) DebugConsole)) = 2 ^ 53"
    by (rule length_allocate)
  have "fst (allocate (2 ^ 53 + 2) DebugConsole) =
          fst (allocate (2 ^ 53) DebugConsole) @ fst (allocate 2 ?s)"
    by (simp only: allocate_append fst_conv)
  then show ?thesis
    using len two by (simp add: nth_append)
qed

subsection \<open>The dispatcher, branch by branch\<close>

lemma is_number_iff: "is_number v = (\<exists>n. v = JNum n)"
  by (cases v) simp_all

lemma is_string_iff: "is_string v = (\<exists>n. v = JStr n)"
  by (cases v) simp_all

lemma getprop_defined: "m \<noteq> JUndefined \<Longrightarrow> m \<noteq> JNull \<Longrightarrow> \<exists>v. getprop m k = Inr v"
  by (cases m) simp_all


lemma transactionMap_invoke [simp]: "transactionMap (invoke f d s) = transactionMap s"
  by (cases f) (simp_all add: callUser_def appendDataFn_def Let_def)

lemma handle_response:
  assumes "response_of m = Some (n, d)"
  shows "handlePeerMessage c q m s =
           (case transactionMap s n of
              Some f \<Rightarrow> Inr ((invoke f d s)\<lparr>transactionMap := (transactionMap s)(n := None)\<rparr>)
            | None \<Rightarrow> Inr (ErrorMetric_log (InvalidId n) s))"
  using assms
  by (auto simp: response_of_def handlePeerMessage_def Let_def
           split: if_splits sum.splits jsval.splits option.splits)

lemma handle_unregistered:
  assumes "getprop m ''opcode'' = Inr (JStr ''response'')"
      and "getprop m ''id'' = Inr (JNum x)"
      and "getprop m ''data'' = Inr d"
      and "transactionMap s x = None"
  shows "handlePeerMessage c q m s =
           Inr (s\<lparr>errlog := errlog s @
                  [if d = JUndefined then UnsupportedOpcode ''response'' else InvalidId x]\<rparr>)"
  using assms by (simp add: handlePeerMessage_def ErrorMetric_log_def)

lemma handle_probe:
  assumes "getprop m ''opcode'' = Inr (JStr ''testP2PConnection'')"
      and "getprop m ''id'' = Inr (JNum n)"
  shows "handlePeerMessage c q m s =
           (case vtcObj s of
              None \<Rightarrow> Inl TypeError
            | Some v \<Rightarrow>
                Inr (s\<lparr>errlog := errlog s @ [RequestHandled q],
                       sent := sent s @ [\<lparr>rtcId = q, msgType = ''debug'',
                          msgData = JObj [(''id'', JNum n), (''opcode'', JStr ''response''),
                            (''data'', JObj [(''myPeerId'', JStr (getId c)),
                                 (''data'', JObj (statusLoop c (roomList v) []))])]\<rparr>]\<rparr>))"
proof -
  obtain d where d: "getprop m ''data'' = Inr d"
    using assms(1) by (cases m) simp_all
  show ?thesis
    by (simp add: handlePeerMessage_def assms d getRoomUserList_def Let_def
          sendPeerMessage_def ErrorMetric_log_def split: option.splits)
qed

lemma handle_other:
  assumes "m \<noteq> JUndefined" and "m \<noteq> JNull" and "\<not> is_probe m" and "response_of m = None"
  shows "\<exists>l. handlePeerMessage c q m s = Inr (ErrorMetric_log l s)"
proof -
  obtain a b d where g: "getprop m ''opcode'' = Inr a" "getprop m ''id'' = Inr b"
      "getprop m ''data'' = Inr d"
    using getprop_defined[OF assms(1,2)] by metis
  show ?thesis
    using assms(3,4) g
    by (auto simp: handlePeerMessage_def is_probe_def response_of_def is_number_iff is_string_iff
             split: jsval.splits if_splits)
qed


subsection \<open>The connectivity status responder\<close>







subsection \<open>Registering and resolving a transaction\<close>



text \<open>
  Claim C4. A response envelope whose id \<open>x\<close> is not registered, with any payload (or
  none), makes the dispatcher return normally with one more line in the log and nothing
  else changed: no callback is called and the registry is the same.
\<close>

theorem resolve_unregistered_only_logs:
  assumes "getprop m ''opcode'' = Inr (JStr ''response'')"
      and "getprop m ''id'' = Inr (JNum x)"
      and "getprop m ''data'' = Inr d"
      and "transactionMap s x = None"
  shows "handlePeerMessage c q m s =
           Inr (s\<lparr>errlog := errlog s @
                  [if d = JUndefined then UnsupportedOpcode ''response'' else InvalidId x]\<rparr>)"
  using assms by (rule handle_unregistered)

theorem resolve_unregistered_only_logs_witness:
  "getprop (response 5 replyB) ''opcode'' = Inr (JStr ''response'')
   \<and> getprop (response 5 replyB) ''id'' = Inr (JNum (Integer 5))
   \<and> getprop (response 5 replyB) ''data'' = Inr replyB
   \<and> transactionMap (registerTransaction (Integer 0) (UserFn 7) DebugConsole) (Integer 5) = None
   \<and> handlePeerMessage clientA ''B'' (response 5 replyB)
        (registerTransaction (Integer 0) (UserFn 7) DebugConsole) =
       Inr ((registerTransaction (Integer 0) (UserFn 7) DebugConsole)
              \<lparr>errlog := [InvalidId (Integer 5)]\<rparr>)"
proof -
  let ?s = "registerTransaction (Integer 0) (UserFn 7) DebugConsole"
  have a: "getprop (response 5 replyB) ''opcode'' = Inr (JStr ''response'')"
    and b: "getprop (response 5 replyB) ''id'' = Inr (JNum (Integer 5))"
    and c: "getprop (response 5 replyB) ''data'' = Inr replyB"
    and d: "transactionMap ?s (Integer 5) = None"
    and e: "replyB \<noteq> JUndefined" "errlog ?s = []"
    by (simp_all add: response_def replyB_def registerTransaction_def DebugConsole_def)
  from resolve_unregistered_only_logs[OF a b c d, of clientA "''B''"]
  show ?thesis
    using a b c d e by simp
qed

text \<open>
  Claim C10. A response envelope with a Number id and no \<^verbatim>\<open>data\<close> takes the last branch
  of the dispatcher: the line for an unsupported opcode is logged and nothing else changes,
  so a transaction registered under that id stays registered and its callback is not called.
\<close>

theorem response_without_data_is_unsupported:
  assumes "getprop m ''opcode'' = Inr (JStr ''response'')"
      and "getprop m ''id'' = Inr (JNum x)"
      and "getprop m ''data'' = Inr JUndefined"
  shows "handlePeerMessage c q m s = Inr (s\<lparr>errlog := errlog s @ [UnsupportedOpcode ''response'']\<rparr>)"
  using assms by (simp add: handlePeerMessage_def ErrorMetric_log_def)

theorem response_without_data_is_unsupported_witness:
  "getprop (JObj [(''opcode'', JStr ''response''), (''id'', JNum (Integer 0))]) ''data'' = Inr JUndefined
   \<and> transactionMap (registerTransaction (Integer 0) (UserFn 7) DebugConsole) (Integer 0) = Some (UserFn 7)
   \<and> handlePeerMessage clientA ''B'' (JObj [(''opcode'', JStr ''response''), (''id'', JNum (Integer 0))])
        (registerTransaction (Integer 0) (UserFn 7) DebugConsole) =
       Inr ((registerTransaction (Integer 0) (UserFn 7) DebugConsole)
              \<lparr>errlog := [UnsupportedOpcode ''response'']\<rparr>)"
proof -
  let ?m = "JObj [(''opcode'', JStr ''response''), (''id'', JNum (Integer 0))]"
  let ?s = "registerTransaction (Integer 0) (UserFn 7) DebugConsole"
  have a: "getprop ?m ''opcode'' = Inr (JStr ''response'')"
    and b: "getprop ?m ''id'' = Inr (JNum (Integer 0))"
    and c: "getprop ?m ''data'' = Inr JUndefined"
    by simp_all
  have d: "transactionMap ?s (Integer 0) = Some (UserFn 7)" "errlog ?s = []"
    by (simp_all add: registerTransaction_def DebugConsole_def)
  from response_without_data_is_unsupported[OF a b c, of clientA "''B''" ?s]
  show ?thesis
    using c d by simp
qed

subsection \<open>Malformed input\<close>

text \<open>
  Claim C9. \<^verbatim>\<open>getP2PDiagnosticForPeerId\<close> without a peer id or without a callback, and
  \<^verbatim>\<open>getP2PDiagnostics\<close> without a callback, return \<^verbatim>\<open>false\<close> and raise nothing. The
  state after differs from the state before in the usage text printed to the console only:
  the counter, the registry and the messages sent are the same.
\<close>

theorem missing_argument_returns_false:
  "getP2PDiagnosticForPeerId None f s =
     Inr (JBool False, s\<lparr>console := console s @ [''Client.getP2PDiagnosticForPeerId'']\<rparr>)
   \<and> getP2PDiagnosticForPeerId p None s =
     Inr (JBool False, s\<lparr>console := console s @ [''Client.getP2PDiagnosticForPeerId'']\<rparr>)
   \<and> getP2PDiagnostics None s =
     Inr (JBool False, s\<lparr>console := console s @ [''Client.getP2PDiagnostics'']\<rparr>)"
  by (simp add: getP2PDiagnosticForPeerId_def getP2PDiagnostics_def console_log_def
        split: option.splits)




subsection \<open>Inbound messages and the closures\<close>

lemma length_closures_appendDataFn [simp]:
  "length (closures (appendDataFn k x s)) = length (closures s)"
  by (simp add: appendDataFn_def Let_def callUser_def)

lemma length_closures_invoke [simp]: "length (closures (invoke f x s)) = length (closures s)"
  by (cases f) (simp_all add: callUser_def)

lemma callers_invoke:
  "i \<in> set (calls (invoke f x s)) \<Longrightarrow> invoker i = Closure k \<Longrightarrow>
     i \<in> set (calls s) \<or> (f = AppendDataFn k \<and> k < length (closures s))"
  by (cases f) (auto simp: callUser_def appendDataFn_def Let_def split: if_splits)

lemma deliver1_response:
  assumes "response_of (snd (snd m)) = Some (n, d)"
  shows "deliver1 m s =
           (case transactionMap s n of
              Some f \<Rightarrow> (invoke f d s)\<lparr>transactionMap := (transactionMap s)(n := None)\<rparr>
            | None \<Rightarrow> ErrorMetric_log (InvalidId n) s)"
  by (simp add: deliver1_def handle_response[OF assms] split: option.splits)

lemma deliver1_no_response:
  assumes "response_of (snd (snd m)) = None"
  shows "\<exists>l t. deliver1 m s = s\<lparr>errlog := l, sent := t\<rparr>"
proof (cases "snd (snd m) = JUndefined \<or> snd (snd m) = JNull")
  case True
  then have "handlePeerMessage (fst m) (fst (snd m)) (snd (snd m)) s = Inl TypeError"
    by (auto simp: handlePeerMessage_def)
  then have "deliver1 m s = s\<lparr>errlog := errlog s, sent := sent s\<rparr>"
    by (simp add: deliver1_def)
  then show ?thesis by blast
next
  case False
  then have nn: "snd (snd m) \<noteq> JUndefined" "snd (snd m) \<noteq> JNull"
    by simp_all
  show ?thesis
  proof (cases "is_probe (snd (snd m))")
    case True
    then obtain n where p: "getprop (snd (snd m)) ''opcode'' = Inr (JStr ''testP2PConnection'')"
        "getprop (snd (snd m)) ''id'' = Inr (JNum n)"
      by (auto simp: is_probe_def split: sum.splits jsval.splits)
    show ?thesis
    proof (cases "vtcObj s")
      case None
      then have "deliver1 m s = s\<lparr>errlog := errlog s, sent := sent s\<rparr>"
        by (simp add: deliver1_def handle_probe[OF p])
      then show ?thesis by blast
    next
      case (Some v)
      then have "deliver1 m s = s\<lparr>errlog := errlog (deliver1 m s), sent := sent (deliver1 m s)\<rparr>"
        by (simp add: deliver1_def handle_probe[OF p])
      then show ?thesis by blast
    qed
  next
    case False
    from handle_other[OF nn False assms, of "fst m" "fst (snd m)" s]
    obtain l where "deliver1 m s = s\<lparr>errlog := errlog s @ [l], sent := sent s\<rparr>"
      by (auto simp: deliver1_def ErrorMetric_log_def)
    then show ?thesis by blast
  qed
qed

lemma length_closures_deliver1 [simp]: "length (closures (deliver1 m s)) = length (closures s)"
proof (cases "response_of (snd (snd m))")
  case None
  from deliver1_no_response[OF this, of s] show ?thesis by auto
next
  case (Some r)
  then have "response_of (snd (snd m)) = Some (fst r, snd r)" by simp
  from deliver1_response[OF this, of s] show ?thesis
    by (simp add: ErrorMetric_log_def split: option.splits)
qed

lemma length_closures_deliver [simp]: "length (closures (deliver msgs s)) = length (closures s)"
  by (induction msgs arbitrary: s) simp_all

lemma wellformed_deliver1:
  assumes "wellformed s"
  shows "wellformed (deliver1 m s)"
proof (cases "response_of (snd (snd m))")
  case None
  from deliver1_no_response[OF this, of s] obtain l t where "deliver1 m s = s\<lparr>errlog := l, sent := t\<rparr>"
    by blast
  with assms show ?thesis by (simp add: wellformed_def)
next
  case (Some r)
  then have r: "response_of (snd (snd m)) = Some (fst r, snd r)" by simp
  show ?thesis
  proof (cases "transactionMap s (fst r)")
    case None
    with assms show ?thesis
      by (simp add: deliver1_response[OF r] wellformed_def ErrorMetric_log_def)
  next
    case (Some f)
    have ref: "\<And>k. f = AppendDataFn k \<Longrightarrow> k < length (closures s)"
      using assms Some by (auto simp: wellformed_def)
    have d: "deliver1 m s = (invoke f (snd r) s)\<lparr>transactionMap := (transactionMap s)(fst r := None)\<rparr>"
      by (simp add: deliver1_response[OF r] Some)
    have "\<forall>i\<in>set (calls (invoke f (snd r) s)). \<forall>k. invoker i = Closure k \<longrightarrow> k < length (closures s)"
      using callers_invoke[of _ f "snd r" s] assms ref by (fastforce simp: wellformed_def)
    with assms show ?thesis
      unfolding d by (simp add: wellformed_def)
  qed
qed

lemma wellformed_deliver: "wellformed s \<Longrightarrow> wellformed (deliver msgs s)"
  by (induction msgs arbitrary: s) (simp_all add: wellformed_deliver1)

text \<open>An environment added at the end is not seen by the messages that follow.\<close>

lemma appendDataFn_frame:
  "k < length (closures s) \<Longrightarrow>
     appendDataFn k x (s\<lparr>closures := closures s @ [e], calls := cl\<rparr>) =
       (appendDataFn k x (s\<lparr>calls := cl\<rparr>))
         \<lparr>closures := closures (appendDataFn k x (s\<lparr>calls := cl\<rparr>)) @ [e]\<rparr>"
  by (simp add: appendDataFn_def Let_def nth_append list_update_append callUser_def)

lemma invoke_frame:
  assumes "\<And>k. f = AppendDataFn k \<Longrightarrow> k < length (closures s)"
  shows "invoke f x (s\<lparr>closures := closures s @ [e]\<rparr>) =
           (invoke f x s)\<lparr>closures := closures (invoke f x s) @ [e]\<rparr>"
proof (cases f)
  case (UserFn g)
  then show ?thesis by (simp add: callUser_def)
next
  case (AppendDataFn k)
  then have "k < length (closures s)" using assms by simp
  from appendDataFn_frame[OF this] show ?thesis
    by (simp add: AppendDataFn)
qed

lemma deliver1_frame:
  assumes "wellformed s"
  shows "deliver1 m (s\<lparr>closures := closures s @ [e]\<rparr>) =
           (deliver1 m s)\<lparr>closures := closures (deliver1 m s) @ [e]\<rparr>"
proof (cases "response_of (snd (snd m))")
  case None
  have "handlePeerMessage c q x (s\<lparr>closures := cs\<rparr>) =
          map_sum id (\<lambda>s'. s'\<lparr>closures := cs\<rparr>) (handlePeerMessage c q x s)"
    if "response_of x = None" for c q x cs
    using that
    by (auto simp: handlePeerMessage_def response_of_def getRoomUserList_def ErrorMetric_log_def
          sendPeerMessage_def Let_def is_number_iff
        split: sum.splits option.splits jsval.splits if_splits)
  from this[OF None] have "deliver1 m (s\<lparr>closures := closures s @ [e]\<rparr>) =
      (deliver1 m s)\<lparr>closures := closures s @ [e]\<rparr>"
    by (cases "handlePeerMessage (fst m) (fst (snd m)) (snd (snd m)) s")
       (simp_all add: deliver1_def)
  moreover from deliver1_no_response[OF None, of s] have "closures (deliver1 m s) = closures s"
    by auto
  ultimately show ?thesis by simp
next
  case (Some r)
  then have r: "response_of (snd (snd m)) = Some (fst r, snd r)" by simp
  show ?thesis
  proof (cases "transactionMap s (fst r)")
    case None
    then show ?thesis
      by (simp add: deliver1_response[OF r] ErrorMetric_log_def)
  next
    case (Some f)
    have ref: "\<And>k. f = AppendDataFn k \<Longrightarrow> k < length (closures s)"
      using assms Some by (auto simp: wellformed_def)
    show ?thesis
      by (simp add: deliver1_response[OF r] Some invoke_frame[OF ref])
  qed
qed

lemma deliver_frame:
  "wellformed s \<Longrightarrow>
     deliver msgs (s\<lparr>closures := closures s @ [e]\<rparr>) =
       (deliver msgs s)\<lparr>closures := closures (deliver msgs s) @ [e]\<rparr>"
proof (induction msgs arbitrary: s)
  case Nil
  then show ?case by simp
next
  case (Cons m msgs)
  show ?case
    by (simp add: deliver1_frame[OF Cons.prems] Cons.IH[OF wellformed_deliver1[OF Cons.prems]])
qed

subsection \<open>Diagnostics of an empty room\<close>

lemma fired_fresh:
  assumes "wellformed s"
  shows "fired (length (closures s)) s = []"
  using assms by (auto simp: fired_def wellformed_def filter_empty_conv)

text \<open>
  Claim C5. When the room has no peer but the local one, \<^verbatim>\<open>getP2PDiagnostics(cb)\<close>
  returns without registering a transaction, sending a probe or calling \<open>cb\<close>: the state
  after is the state before with the closure's environment added. Whatever messages arrive
  later, they are handled as if the call had not been made (same registry, same calls, same
  messages sent, same log), and the closure of this call never calls \<open>cb\<close>.
\<close>

theorem empty_room_never_completes:
  assumes "vtcObj s = Some v"
      and "filter (\<lambda>elem. elem \<noteq> getId (client v)) (roomList v) = []"
      and "wellformed s"
  shows "getP2PDiagnostics (Some cb) s =
           Inr (JUndefined, s\<lparr>closures := closures s @ [\<lparr>roomSize = 0, results = [], completionFn = cb\<rparr>]\<rparr>)
         \<and> deliver msgs (s\<lparr>closures := closures s @ [\<lparr>roomSize = 0, results = [], completionFn = cb\<rparr>]\<rparr>) =
             (deliver msgs s)\<lparr>closures := closures (deliver msgs s) @
                                  [\<lparr>roomSize = 0, results = [], completionFn = cb\<rparr>]\<rparr>
         \<and> fired (length (closures s))
              (deliver msgs (s\<lparr>closures := closures s @ [\<lparr>roomSize = 0, results = [], completionFn = cb\<rparr>]\<rparr>)) = []"
proof -
  let ?e = "\<lparr>roomSize = 0, results = [], completionFn = cb\<rparr>"
  have 1: "getP2PDiagnostics (Some cb) s = Inr (JUndefined, s\<lparr>closures := closures s @ [?e]\<rparr>)"
    using assms(1,2) by (simp add: getP2PDiagnostics_def Let_def)
  have 2: "deliver msgs (s\<lparr>closures := closures s @ [?e]\<rparr>) =
             (deliver msgs s)\<lparr>closures := closures (deliver msgs s) @ [?e]\<rparr>"
    by (rule deliver_frame[OF assms(3)])
  have "fired (length (closures (deliver msgs s))) (deliver msgs s) = []"
    by (rule fired_fresh[OF wellformed_deliver[OF assms(3)]])
  then have 3: "fired (length (closures s)) (deliver msgs (s\<lparr>closures := closures s @ [?e]\<rparr>)) = []"
    unfolding 2 by (simp add: fired_def)
  show ?thesis
    using 1 2 3 by blast
qed

theorem empty_room_never_completes_witness:
  "vtcObj onlyA = Some \<lparr>roomList = [''A''], client = clientA\<rparr>
   \<and> filter (\<lambda>elem. elem \<noteq> getId clientA) [''A''] = []
   \<and> wellformed onlyA
   \<and> getP2PDiagnostics (Some 5) onlyA =
       Inr (JUndefined, onlyA\<lparr>closures := [\<lparr>roomSize = 0, results = [], completionFn = 5\<rparr>]\<rparr>)
   \<and> fired 0 (deliver [(clientA, ''B'', response 0 replyB), (clientA, ''B'', probe 3)]
                (onlyA\<lparr>closures := [\<lparr>roomSize = 0, results = [], completionFn = 5\<rparr>]\<rparr>)) = []"
proof -
  have a: "vtcObj onlyA = Some \<lparr>roomList = [''A''], client = clientA\<rparr>"
    by (simp add: onlyA_def setVtcObject_def)
  have b: "filter (\<lambda>elem. elem \<noteq> getId (client \<lparr>roomList = [''A''], client = clientA\<rparr>))
             (roomList \<lparr>roomList = [''A''], client = clientA\<rparr>) = []"
    by (simp add: clientA_def)
  have c: "wellformed onlyA"
    by (simp add: wellformed_def onlyA_def setVtcObject_def DebugConsole_def)
  have d: "closures onlyA = []"
    by (simp add: onlyA_def setVtcObject_def DebugConsole_def)
  let ?msgs = "[(clientA, ''B'', response 0 replyB), (clientA, ''B'', probe 3)]"
  let ?e = "\<lparr>roomSize = 0, results = [], completionFn = 5\<rparr>"
  from empty_room_never_completes[OF a b c, of 5 ?msgs]
  have r: "getP2PDiagnostics (Some 5) onlyA = Inr (JUndefined, onlyA\<lparr>closures := closures onlyA @ [?e]\<rparr>)"
    and f: "fired (length (closures onlyA)) (deliver ?msgs (onlyA\<lparr>closures := closures onlyA @ [?e]\<rparr>)) = []"
    by blast+
  have r': "getP2PDiagnostics (Some 5) onlyA = Inr (JUndefined, onlyA\<lparr>closures := [?e]\<rparr>)"
    using r by (simp only: d append_Nil)
  have f': "fired 0 (deliver ?msgs (onlyA\<lparr>closures := [?e]\<rparr>)) = []"
    using f by (simp only: d append_Nil list.size)
  have b': "filter (\<lambda>elem. elem \<noteq> getId clientA) [''A''] = []"
    by (simp add: clientA_def)
  show ?thesis
    by (intro conjI a b' c r' f')
qed

subsection \<open>One aggregation\<close>







subsection \<open>Diagnostics of a room\<close>

lemma getP2PDiagnosticForPeerId_ok:
  assumes "vtcObj s = Some v"
  shows "getP2PDiagnosticForPeerId (Some p) (Some f) s =
           Inr (JUndefined,
                s\<lparr>txid := increment (txid s),
                  sent := sent s @ [\<lparr>rtcId = p, msgType = ''debug'', msgData = probe (txid s)\<rparr>],
                  transactionMap := (transactionMap s)(Integer (txid s) \<mapsto> f)\<rparr>)"
  using assms
  by (simp add: getP2PDiagnosticForPeerId_def getTxid_def sendPeerMessage_def
        registerTransaction_def probe_def)






text \<open>
  Claim C6 against the code: in the room A, B, C seen from A, \<^verbatim>\<open>getP2PDiagnostics\<close>
  with callback 5, then the reply of C and the reply of B. The closure hands the callback
  the array of the two reply payloads in the order of their arrival; it is not an object
  keyed by the identifiers of the peers queried.
\<close>

theorem aggregate_is_array_of_replies:
  "map_sum id calls
     (diagnose 5 [(clientA, ''C'', response 1 replyC), (clientA, ''B'', response 0 replyB)] roomABC) =
   Inr [\<lparr>invoker = Dispatcher, callee = AppendDataFn 0, arg = replyC\<rparr>,
        \<lparr>invoker = Dispatcher, callee = AppendDataFn 0, arg = replyB\<rparr>,
        \<lparr>invoker = Closure 0, callee = UserFn 5, arg = JArr [replyC, replyB]\<rparr>]"
proof -
  let ?v = "\<lparr>roomList = [''A'', ''B'', ''C''], client = clientA\<rparr>"
  let ?e = "\<lparr>roomSize = 2, results = [], completionFn = 5\<rparr>"
  let ?s1 = "roomABC\<lparr>closures := [?e], txid := 2,
               sent := [\<lparr>rtcId = ''B'', msgType = ''debug'', msgData = probe 0\<rparr>,
                        \<lparr>rtcId = ''C'', msgType = ''debug'', msgData = probe 1\<rparr>],
               transactionMap := [Integer 0 \<mapsto> AppendDataFn 0, Integer 1 \<mapsto> AppendDataFn 0]\<rparr>"
  have v: "vtcObj roomABC = Some ?v" and t: "txid roomABC = 0" and k: "closures roomABC = []"
    and st: "sent roomABC = []" and tm: "transactionMap roomABC = Map.empty"
    and cl: "calls roomABC = []"
    by (simp_all add: roomABC_def setVtcObject_def DebugConsole_def)
  have call: "getP2PDiagnostics (Some 5) roomABC = Inr (JUndefined, ?s1)"
    by (simp add: getP2PDiagnostics_def getP2PDiagnosticForPeerId_def v t k st tm clientA_def
          getTxid_def increment_def sendPeerMessage_def registerTransaction_def probe_def Let_def)
  have rc: "response_of (response 1 replyC) = Some (Integer 1, replyC)"
    and rb: "response_of (response 0 replyB) = Some (Integer 0, replyB)"
    by (simp_all add: response_of_def response_def replyB_def replyC_def)
  have "calls (deliver [(clientA, ''C'', response 1 replyC), (clientA, ''B'', response 0 replyB)] ?s1) =
          [\<lparr>invoker = Dispatcher, callee = AppendDataFn 0, arg = replyC\<rparr>,
           \<lparr>invoker = Dispatcher, callee = AppendDataFn 0, arg = replyB\<rparr>,
           \<lparr>invoker = Closure 0, callee = UserFn 5, arg = JArr [replyC, replyB]\<rparr>]"
    by (simp add: deliver1_def handle_response[OF rc] handle_response[OF rb] cl
          appendDataFn_def callUser_def Let_def)
  then show ?thesis
    by (simp add: diagnose_def call)
qed

subsection \<open>Well-formedness is an invariant\<close>

lemma wellformed_DebugConsole: "wellformed DebugConsole"
  by (simp add: wellformed_def DebugConsole_def)

lemma wellformed_register:
  assumes "wellformed s" and "\<And>k. f = AppendDataFn k \<Longrightarrow> k < length (closures s)"
      and "getP2PDiagnosticForPeerId p (Some f) s = Inr (r, s')"
  shows "wellformed s' \<and> closures s' = closures s"
proof (cases p)
  case None
  with assms(1,3) show ?thesis
    by (auto simp: getP2PDiagnosticForPeerId_def console_log_def wellformed_def)
next
  case (Some pid)
  with assms(3) obtain v where v: "vtcObj s = Some v"
    by (auto simp: getP2PDiagnosticForPeerId_def split: option.splits)
  from assms(3) have "s' = s\<lparr>txid := increment (txid s),
                  sent := sent s @ [\<lparr>rtcId = pid, msgType = ''debug'', msgData = probe (txid s)\<rparr>],
                  transactionMap := (transactionMap s)(Integer (txid s) \<mapsto> f)\<rparr>"
    unfolding Some getP2PDiagnosticForPeerId_ok[OF v] by simp
  with assms(1,2) show ?thesis
    by (auto simp: wellformed_def)
qed

lemma wellformed_diagnosticsLoop:
  "wellformed s \<Longrightarrow> k < length (closures s) \<Longrightarrow>
     diagnosticsLoop ps (AppendDataFn k) s = Inr s' \<Longrightarrow> wellformed s'"
proof (induction ps arbitrary: s)
  case Nil
  then show ?case by simp
next
  case (Cons p ps)
  from Cons.prems(3) obtain r where r: "getP2PDiagnosticForPeerId (Some p) (Some (AppendDataFn k)) s = Inr r"
      and rest: "diagnosticsLoop ps (AppendDataFn k) (snd r) = Inr s'"
    by (auto split: sum.splits)
  from wellformed_register[OF Cons.prems(1), of "AppendDataFn k" "Some p" "fst r" "snd r"] Cons.prems(2) r
  have "wellformed (snd r)" "closures (snd r) = closures s"
    by simp_all
  with Cons.IH[of "snd r"] Cons.prems(2) rest show ?case
    by simp
qed

lemma wellformed_getP2PDiagnostics:
  assumes "wellformed s" and "getP2PDiagnostics f s = Inr (r, s')"
  shows "wellformed s'"
proof (cases f)
  case None
  with assms show ?thesis
    by (auto simp: getP2PDiagnostics_def console_log_def wellformed_def)
next
  case (Some cb)
  with assms(2) obtain v where v: "vtcObj s = Some v"
    by (auto simp: getP2PDiagnostics_def split: option.splits)
  let ?rl = "filter (\<lambda>elem. elem \<noteq> getId (client v)) (roomList v)"
  let ?s0 = "s\<lparr>closures := closures s @ [\<lparr>roomSize = length ?rl, results = [], completionFn = cb\<rparr>]\<rparr>"
  have w0: "wellformed ?s0"
    using assms(1) by (fastforce simp: wellformed_def)
  have "diagnosticsLoop ?rl (AppendDataFn (length (closures s))) ?s0 = Inr s'"
    using assms(2) by (auto simp: getP2PDiagnostics_def Some v Let_def split: sum.splits)
  from wellformed_diagnosticsLoop[OF w0 _ this] show ?thesis
    by simp
qed

lemma reachable_wellformed: "reachable s \<Longrightarrow> wellformed s"
proof (induction rule: reachable.induct)
  case initial
  show ?case by (rule wellformed_DebugConsole)
next
  case (vtc_set s v)
  then show ?case by (simp add: wellformed_def setVtcObject_def)
next
  case (inbound s c q m s')
  then have "s' = deliver1 (c, q, m) s"
    by (simp add: deliver1_def)
  with inbound.IH show ?case
    by (simp add: wellformed_deliver1)
next
  case (for_peer s p f r s')
  show ?case
  proof (cases f)
    case None
    with for_peer show ?thesis
      by (auto simp: getP2PDiagnosticForPeerId_def console_log_def wellformed_def split: option.splits)
  next
    case (Some g)
    with for_peer.hyps(2) have "getP2PDiagnosticForPeerId p (Some (UserFn g)) s = Inr (r, s')"
      by simp
    from wellformed_register[OF for_peer.IH _ this] show ?thesis
      by simp
  qed
next
  case (for_room s f r s')
  then show ?case
    by (simp add: wellformed_getP2PDiagnostics)
qed

text \<open>The counter of a reachable state is within the range on which \<open>increment\<close> is exact.\<close>

lemma increment_range: "0 \<le> n \<and> n \<le> 2 ^ 53 \<Longrightarrow> 0 \<le> increment n \<and> increment n \<le> 2 ^ 53"
  by (simp add: increment_def)

lemma txid_invoke [simp]: "txid (invoke f x s) = txid s"
  by (cases f) (simp_all add: callUser_def appendDataFn_def Let_def)

lemma txid_handlePeerMessage: "handlePeerMessage c q m s = Inr s' \<Longrightarrow> txid s' = txid s"
proof -
  assume h: "handlePeerMessage c q m s = Inr s'"
  then have d: "s' = deliver1 (c, q, m) s"
    by (simp add: deliver1_def)
  show ?thesis
  proof (cases "response_of m")
    case None
    with deliver1_no_response[of "(c, q, m)" s] d show ?thesis
      by auto
  next
    case (Some r)
    then have "response_of (snd (snd (c, q, m))) = Some (fst r, snd r)"
      by simp
    from deliver1_response[OF this, of s] d show ?thesis
      by (simp add: ErrorMetric_log_def split: option.splits)
  qed
qed

lemma txid_getP2PDiagnosticForPeerId:
  assumes "getP2PDiagnosticForPeerId p f s = Inr (r, s')" and "0 \<le> txid s \<and> txid s \<le> 2 ^ 53"
  shows "0 \<le> txid s' \<and> txid s' \<le> 2 ^ 53"
  using assms increment_range[of "txid s"]
  by (auto simp: getP2PDiagnosticForPeerId_def console_log_def getTxid_def sendPeerMessage_def
        registerTransaction_def Let_def split: option.splits)

lemma txid_diagnosticsLoop:
  "diagnosticsLoop ps f s = Inr s' \<Longrightarrow> 0 \<le> txid s \<and> txid s \<le> 2 ^ 53 \<Longrightarrow>
     0 \<le> txid s' \<and> txid s' \<le> 2 ^ 53"
proof (induction ps arbitrary: s)
  case Nil
  then show ?case by simp
next
  case (Cons p ps)
  from Cons.prems(1) obtain r where r: "getP2PDiagnosticForPeerId (Some p) (Some f) s = Inr r"
      and rest: "diagnosticsLoop ps f (snd r) = Inr s'"
    by (auto split: sum.splits)
  from txid_getP2PDiagnosticForPeerId[of "Some p" "Some f" s "fst r" "snd r"] r Cons.prems(2)
  have "0 \<le> txid (snd r) \<and> txid (snd r) \<le> 2 ^ 53"
    by simp
  from Cons.IH[OF rest this] show ?case .
qed

lemma txid_getP2PDiagnostics:
  assumes "getP2PDiagnostics f s = Inr (r, s')" and "0 \<le> txid s \<and> txid s \<le> 2 ^ 53"
  shows "0 \<le> txid s' \<and> txid s' \<le> 2 ^ 53"
proof (cases f)
  case None
  with assms show ?thesis
    by (auto simp: getP2PDiagnostics_def console_log_def)
next
  case (Some cb)
  with assms(1) obtain v where v: "vtcObj s = Some v"
    by (auto simp: getP2PDiagnostics_def split: option.splits)
  let ?rl = "filter (\<lambda>elem. elem \<noteq> getId (client v)) (roomList v)"
  let ?s0 = "s\<lparr>closures := closures s @ [\<lparr>roomSize = length ?rl, results = [], completionFn = cb\<rparr>]\<rparr>"
  have "diagnosticsLoop ?rl (AppendDataFn (length (closures s))) ?s0 = Inr s'"
    using assms(1) by (auto simp: getP2PDiagnostics_def Some v Let_def split: sum.splits)
  from txid_diagnosticsLoop[OF this] assms(2) show ?thesis
    by simp
qed

lemma reachable_txid: "reachable s \<Longrightarrow> 0 \<le> txid s \<and> txid s \<le> 2 ^ 53"
proof (induction rule: reachable.induct)
  case initial
  show ?case by (simp add: DebugConsole_def)
next
  case (vtc_set s v)
  then show ?case by (simp add: setVtcObject_def)
next
  case (inbound s c q m s')
  then show ?case by (simp add: txid_handlePeerMessage)
next
  case (for_peer s p f r s')
  from txid_getP2PDiagnosticForPeerId[OF for_peer.hyps(2) for_peer.IH] show ?case .
next
  case (for_room s f r s')
  from txid_getP2PDiagnostics[OF for_room.hyps(2) for_room.IH] show ?case .
qed

end
